theory Spec2Isabelle
  imports Complex_Main
begin

section \<open>Values shared by the server and the client\<close>

text \<open>
  The two programs exchange newline-delimited JSON text. A Python value that travels through
  \<^verbatim>\<open>json.dumps\<close> or comes out of \<^verbatim>\<open>json.loads\<close> is a \<open>json\<close>. A dict is the list of its
  items (the keys of a dict are distinct) and \<^verbatim>\<open>d.get(k)\<close> is \<open>map_of\<close>. \<open>JFloat\<close> carries a
  finite float, \<open>JNonFinite\<close> stands for NaN and the infinities, which \<^verbatim>\<open>json.loads\<close> accepts
  and which equal no integer.
\<close>

datatype json =
    JNull
  | JBool bool
  | JInt int
  | JFloat real
  | JNonFinite
  | JStr string
  | JArr "json list"
  | JObj "(string \<times> json) list"

text \<open>Python's \<^verbatim>\<open>v == k\<close> for an integer literal \<open>k\<close>: \<^verbatim>\<open>True == 1\<close> and \<^verbatim>\<open>1.0 == 1\<close> hold.\<close>

fun py_eq_int :: "json \<Rightarrow> int \<Rightarrow> bool" where
  "py_eq_int (JInt n) k = (n = k)"
| "py_eq_int (JBool b) k = ((if b then 1 else 0) = k)"
| "py_eq_int (JFloat r) k = (r = of_int k)"
| "py_eq_int _ k = False"

text \<open>Python's \<^verbatim>\<open>d.get(key) == s\<close> for a string literal \<open>s\<close>; a missing key gives \<^verbatim>\<open>None\<close>.\<close>

fun py_eq_str :: "json option \<Rightarrow> string \<Rightarrow> bool" where
  "py_eq_str (Some (JStr t)) s = (t = s)"
| "py_eq_str _ s = False"

text \<open>
  The exceptions of the receive loop: \<^verbatim>\<open>json.JSONDecodeError\<close>, \<^verbatim>\<open>AttributeError\<close> (a parsed
  value without \<^verbatim>\<open>get\<close>), and any other one, such as the \<^verbatim>\<open>RecursionError\<close> of
  \<^verbatim>\<open>json.loads\<close> on deeply nested input.
\<close>

datatype py_exception = JSONDecodeError | AttributeError | OtherException

text \<open>
  What the programs take from the Python library and the operating system. The wall clock
  is read through \<^verbatim>\<open>time.time()\<close> and \<^verbatim>\<open>datetime.now().isoformat()\<close>: the \<open>k\<close>-th read of a
  process returns \<open>time_time env k\<close> (or \<open>now_isoformat env k\<close>), and every process counts its
  reads in \<open>clock_reads\<close>.
\<close>

record env =
  time_time :: "nat \<Rightarrow> real"
  now_isoformat :: "nat \<Rightarrow> string"
  json_dumps :: "json \<Rightarrow> string"
  json_loads :: "string \<Rightarrow> py_exception + json"

record process =
  clock_reads :: nat

definition newline :: char where
  "newline = CHR 0x0A"

section \<open>pir-server.py\<close>

type_synonym sock = nat
type_synonym address = "string \<times> nat"
type_synonym client = "sock \<times> address"

text \<open>
  What the server does to the registry, the serializer and the client sockets, in the order
  it does it: \<^verbatim>\<open>clients.append\<close>, \<^verbatim>\<open>json.dumps\<close>, a \<^verbatim>\<open>send\<close> that returns, a \<^verbatim>\<open>send\<close> that
  raises, and \<^verbatim>\<open>close\<close>.
\<close>

datatype server_effect =
    Registered sock address
  | Serialized json
  | Sent sock string
  | SendFailed sock string
  | Closed sock

text \<open>The module's globals, and the history of these effects.\<close>

record server = process +
  clients :: "client list"
  pir_state :: int
  motion_count :: int
  last_state_change :: real
  calls :: "server_effect list"

definition PIR_PIN :: int where
  "PIR_PIN = 24"

definition server_init :: server where
  "server_init = \<lparr>clock_reads = 0, clients = [], pir_state = 0, motion_count = 0,
     last_state_change = 0, calls = []\<rparr>"

text \<open>
  \<^verbatim>\<open>client_socket.send(message.encode())\<close> under \<^verbatim>\<open>try: ... except:\<close>. Whether the send to a
  socket raises is given by \<open>fails\<close>; a send that returns has written the whole message.
\<close>

definition send_call :: "(sock \<Rightarrow> bool) \<Rightarrow> sock \<Rightarrow> string \<Rightarrow> server_effect" where
  "send_call fails s message = (if fails s then SendFailed s message else Sent s message)"

text \<open>The first loop of \<^verbatim>\<open>broadcast_to_clients\<close>: returns \<open>disconnected_clients\<close>.\<close>

fun send_loop :: "(sock \<Rightarrow> bool) \<Rightarrow> string \<Rightarrow> client list \<Rightarrow> client list \<Rightarrow> server
    \<Rightarrow> client list \<times> server" where
  "send_loop fails message [] disconnected_clients st = (disconnected_clients, st)"
| "send_loop fails message ((client_socket, client_address) # rest) disconnected_clients st =
     (let st' = st\<lparr>calls := calls st @ [send_call fails client_socket message]\<rparr>
      in if fails client_socket
         then send_loop fails message rest
                (disconnected_clients @ [(client_socket, client_address)]) st'
         else send_loop fails message rest disconnected_clients st')"

text \<open>The second loop: \<^verbatim>\<open>if client in clients: clients.remove(client); client[0].close()\<close>.\<close>

fun remove_loop :: "client list \<Rightarrow> server \<Rightarrow> server" where
  "remove_loop [] st = st"
| "remove_loop (client # rest) st =
     remove_loop rest
       (if client \<in> set (clients st)
        then st\<lparr>clients := remove1 client (clients st),
                calls := calls st @ [Closed (fst client)]\<rparr>
        else st)"

definition broadcast_to_clients :: "(sock \<Rightarrow> bool) \<Rightarrow> string \<Rightarrow> server \<Rightarrow> server" where
  "broadcast_to_clients fails message st =
     (let (disconnected_clients, st') = send_loop fails message (clients st) [] st
      in remove_loop disconnected_clients st')"

definition welcome_msg :: "env \<Rightarrow> server \<Rightarrow> json" where
  "welcome_msg env st = JObj
     [(''type'', JStr ''welcome''),
      (''message'', JStr ''Connected to PIR server''),
      (''timestamp'', JStr (now_isoformat env (clock_reads st))),
      (''pir_state'', JInt (pir_state st))]"

definition handle_client :: "env \<Rightarrow> (sock \<Rightarrow> bool) \<Rightarrow> sock \<Rightarrow> address \<Rightarrow> server \<Rightarrow> server" where
  "handle_client env fails client_socket client_address st =
     (let st1 = st\<lparr>clients := clients st @ [(client_socket, client_address)],
                   calls := calls st @ [Registered client_socket client_address]\<rparr>;
          welcome = welcome_msg env st1;
          st2 = st1\<lparr>clock_reads := clock_reads st1 + 1\<rparr>;
          message = json_dumps env welcome @ [newline];
          st3 = st2\<lparr>calls := calls st2 @ [Serialized welcome]\<rparr>
      in st3\<lparr>calls := calls st3 @ [send_call fails client_socket message]\<rparr>)"

text \<open>
  One iteration of the \<^verbatim>\<open>while running\<close> loop of \<^verbatim>\<open>monitor_sensor\<close>, up to the sleep.
  \<open>current_state\<close> is what \<^verbatim>\<open>read_pir_state()\<close> returned; \<open>previous_state\<close> and \<open>send_counter\<close>
  are the locals of \<^verbatim>\<open>monitor_sensor\<close>.
\<close>

definition detect_change :: "env \<Rightarrow> int \<Rightarrow> int \<Rightarrow> server \<Rightarrow> int \<times> server" where
  "detect_change env current_state previous_state st =
     (if current_state \<noteq> previous_state
      then (current_state,
            (if current_state = 1 then st\<lparr>motion_count := motion_count st + 1\<rparr> else st)
              \<lparr>last_state_change := time_time env (clock_reads st),
               clock_reads := clock_reads st + 1\<rparr>)
      else (previous_state, st))"

definition state_data :: "env \<Rightarrow> int \<Rightarrow> server \<Rightarrow> json \<times> server" where
  "state_data env current_state st =
     (let timestamp = now_isoformat env (clock_reads st);
          st1 = st\<lparr>clock_reads := clock_reads st + 1\<rparr>;
          (time_since_change, st2) =
            (if last_state_change st1 > 0
             then (JFloat (time_time env (clock_reads st1) - last_state_change st1),
                   st1\<lparr>clock_reads := clock_reads st1 + 1\<rparr>)
             else (JInt 0, st1))
      in (JObj
           [(''type'', JStr ''pir_state''),
            (''timestamp'', JStr timestamp),
            (''state'', JInt current_state),
            (''motion'', JBool (current_state \<noteq> 0)),
            (''pin'', JInt PIR_PIN),
            (''motion_count'', JInt (motion_count st2)),
            (''time_since_change'', time_since_change),
            (''clients_connected'', JInt (int (length (clients st2))))],
          st2))"

definition monitor_tick :: "env \<Rightarrow> int \<Rightarrow> (sock \<Rightarrow> bool) \<Rightarrow> int \<Rightarrow> int \<Rightarrow> server
    \<Rightarrow> int \<times> int \<times> server" where
  "monitor_tick env current_state fails previous_state send_counter st =
     (let (previous_state', st1) = detect_change env current_state previous_state st;
          st2 = st1\<lparr>pir_state := current_state\<rparr>;
          (data, st3) = state_data env current_state st2
      in if clients st3 \<noteq> []
         then (let message = json_dumps env data @ [newline];
                   st4 = st3\<lparr>calls := calls st3 @ [Serialized data]\<rparr>
               in (previous_state', send_counter + 1, broadcast_to_clients fails message st4))
         else (previous_state', send_counter, st3))"

text \<open>The data of a tick, and its message: the serialized data followed by a newline.\<close>

definition tick_data :: "env \<Rightarrow> int \<Rightarrow> int \<Rightarrow> server \<Rightarrow> json" where
  "tick_data env current_state previous_state st =
     fst (state_data env current_state
       ((snd (detect_change env current_state previous_state st))
          \<lparr>pir_state := current_state\<rparr>))"

definition tick_message :: "env \<Rightarrow> int \<Rightarrow> int \<Rightarrow> server \<Rightarrow> string" where
  "tick_message env current_state previous_state st =
     json_dumps env (tick_data env current_state previous_state st) @ [newline]"

text \<open>The values passed to \<^verbatim>\<open>json.dumps\<close> in a history, in order.\<close>

fun serialized :: "server_effect list \<Rightarrow> json list" where
  "serialized [] = []"
| "serialized (Serialized data # rest) = data # serialized rest"
| "serialized (e # rest) = serialized rest"

text \<open>
  The server runs \<^verbatim>\<open>monitor_sensor\<close> in one thread and a \<^verbatim>\<open>handle_client\<close> thread for each
  accepted connection. A run is the sequence of these steps, each taken as a whole.
\<close>

datatype server_event =
    Tick int "sock \<Rightarrow> bool"
  | Accept sock address "sock \<Rightarrow> bool"

fun server_step :: "env \<Rightarrow> server_event \<Rightarrow> int \<times> int \<times> server \<Rightarrow> int \<times> int \<times> server" where
  "server_step env (Tick current_state fails) (previous_state, send_counter, st) =
     monitor_tick env current_state fails previous_state send_counter st"
| "server_step env (Accept client_socket client_address fails) (previous_state, send_counter, st) =
     (previous_state, send_counter, handle_client env fails client_socket client_address st)"

fun server_run :: "env \<Rightarrow> server_event list \<Rightarrow> int \<times> int \<times> server \<Rightarrow> int \<times> int \<times> server" where
  "server_run env [] cfg = cfg"
| "server_run env (e # es) cfg = server_run env es (server_step env e cfg)"

text \<open>The sensor readings of a run, in order.\<close>

fun readings :: "server_event list \<Rightarrow> int list" where
  "readings [] = []"
| "readings (Tick current_state fails # es) = current_state # readings es"
| "readings (Accept client_socket client_address fails # es) = readings es"

text \<open>
  The specification's edge count: the number of positions of a sequence of readings where
  the previous reading is 0 and the current one is 1, the reading before the first being \<open>p\<close>.
\<close>

fun rising_edges :: "int \<Rightarrow> int list \<Rightarrow> int" where
  "rising_edges p [] = 0"
| "rising_edges p (x # xs) = (if p = 0 \<and> x = 1 then 1 else 0) + rising_edges x xs"


text \<open>The globals of a configuration of a run (the first two components are the locals).\<close>

definition globals :: "int \<times> int \<times> server \<Rightarrow> server" where
  "globals cfg = snd (snd cfg)"

section \<open>video-client.py: PIRClient\<close>

text \<open>
  Of \<^verbatim>\<open>SETTINGS\<close>, the entries that \<^verbatim>\<open>PIRClient\<close> reads. The functions below take the
  settings as an argument; the module's own value is \<open>SETTINGS\<close>.
\<close>

record settings =
  motion_debounce_ms :: int
  port :: nat
  buffer_size :: nat

definition SETTINGS :: settings where
  "SETTINGS = \<lparr>motion_debounce_ms = 200, port = 5555, buffer_size = 1024\<rparr>"

text \<open>The fields of a \<^verbatim>\<open>PIRClient\<close> object (without the socket and the thread handle).\<close>

record PIRClient = process +
  connected :: bool
  motion_detected :: bool
  last_motion_time :: real
  running :: bool

definition PIRClient_init :: PIRClient where
  "PIRClient_init = \<lparr>clock_reads = 0, connected = False, motion_detected = False,
     last_motion_time = 0, running = True\<rparr>"

subsection \<open>find_raspberry_pi\<close>

text \<open>Python's \<^verbatim>\<open>str(i)\<close> for a non-negative integer.\<close>

fun str :: "nat \<Rightarrow> string" where
  "str n = (if n < 10 then [char_of (48 + n)] else str (n div 10) @ [char_of (48 + n mod 10)])"

text \<open>\<^verbatim>\<open>s.split(sep)\<close> for a one-character separator, and \<^verbatim>\<open>sep.join(parts)\<close>.\<close>

fun split :: "string \<Rightarrow> char \<Rightarrow> string list" where
  "split [] sep = [[]]"
| "split (c # cs) sep =
     (if c = sep then [] # split cs sep
      else (case split cs sep of [] \<Rightarrow> [[c]] | part # parts \<Rightarrow> (c # part) # parts))"

fun join :: "string \<Rightarrow> string list \<Rightarrow> string" where
  "join sep [] = []"
| "join sep [part] = part"
| "join sep (part # parts) = part @ sep @ join sep parts"

text \<open>
  \<^verbatim>\<open>sock.connect_ex((ip, port))\<close> returns an error indicator (0 for success) or raises.
\<close>

datatype connect_result = Returned int | Raised

text \<open>
  The \<^verbatim>\<open>for i in range(1, 255)\<close> loop over the hosts still to probe. The second component
  of the result lists the addresses probed, in order.
\<close>

fun scan :: "(address \<Rightarrow> connect_result) \<Rightarrow> settings \<Rightarrow> string \<Rightarrow> nat list \<Rightarrow> address list
    \<Rightarrow> string option \<times> address list" where
  "scan connect_ex cfg network_prefix [] probed = (None, probed)"
| "scan connect_ex cfg network_prefix (i # rest) probed =
     (let ip = network_prefix @ str i;
          probed' = probed @ [(ip, port cfg)]
      in case connect_ex (ip, port cfg) of
           Returned result \<Rightarrow>
             if result = 0 then (Some ip, probed')
             else scan connect_ex cfg network_prefix rest probed'
         | Raised \<Rightarrow> scan connect_ex cfg network_prefix rest probed')"

text \<open>
  \<open>local_ip\<close> is the outcome of the first \<^verbatim>\<open>try\<close> block: the address of the interface that
  routes to 8.8.8.8, or \<open>None\<close> when the block raises.
\<close>

definition find_raspberry_pi :: "string option \<Rightarrow> (address \<Rightarrow> connect_result) \<Rightarrow> settings
    \<Rightarrow> string option \<times> address list" where
  "find_raspberry_pi local_ip connect_ex cfg =
     (case local_ip of
        None \<Rightarrow> (None, [])
      | Some ip \<Rightarrow>
          scan connect_ex cfg (join ''.'' (butlast (split ip CHR ''.'')) @ ''.'') [1..<255] [])"

text \<open>
  The addresses of the scan for a given local address: the local address without its last
  dotted component, followed by 1 to 254.
\<close>

definition candidates :: "string \<Rightarrow> string list" where
  "candidates ip =
     map (\<lambda>i. join ''.'' (butlast (split ip CHR ''.'')) @ ''.'' @ str i) [1..<255]"

text \<open>A probe succeeds when \<^verbatim>\<open>connect_ex\<close> returns 0.\<close>

definition accepts :: "(address \<Rightarrow> connect_result) \<Rightarrow> settings \<Rightarrow> string \<Rightarrow> bool" where
  "accepts connect_ex cfg h = (connect_ex (h, port cfg) = Returned 0)"

subsection \<open>_receive_data\<close>

text \<open>
  Text is a list of characters, one \<open>char\<close> for each code point: the model covers text
  whose code points are below 256. \<open>is_space\<close> is Python's whitespace test on that range.
\<close>

definition is_space :: "char \<Rightarrow> bool" where
  "is_space c = ((of_char c :: nat) \<in> {9, 10, 11, 12, 13, 28, 29, 30, 31, 32, 133, 160})"

definition strip :: "string \<Rightarrow> string" where
  "strip s = rev (dropWhile is_space (rev (dropWhile is_space s)))"

text \<open>\<^verbatim>\<open>d.get(key, fallback)\<close>.\<close>

definition dict_get :: "(string \<times> json) list \<Rightarrow> string \<Rightarrow> json \<Rightarrow> json" where
  "dict_get d key fallback = (case map_of d key of None \<Rightarrow> fallback | Some v \<Rightarrow> v)"

text \<open>
  The body of \<^verbatim>\<open>try: message = json.loads(line) ...\<close> after the parse: what one parsed
  message does to the local \<open>previous_state\<close> and to the object. A message that is not a dict
  has no \<^verbatim>\<open>get\<close>: the call raises \<^verbatim>\<open>AttributeError\<close>.
\<close>

definition handle_message :: "env \<Rightarrow> json \<Rightarrow> json \<Rightarrow> PIRClient
    \<Rightarrow> py_exception + json \<times> PIRClient" where
  "handle_message env message previous_state self =
     (case message of
        JObj d \<Rightarrow>
          if py_eq_str (map_of d ''type'') ''pir_state'' then
            (let current_state = dict_get d ''state'' (JInt 0);
                 self' =
                   (if py_eq_int current_state 1 \<and> py_eq_int previous_state 0
                    then self\<lparr>motion_detected := True,
                              last_motion_time := time_time env (clock_reads self),
                              clock_reads := clock_reads self + 1\<rparr>
                    else self)
             in Inr (current_state, self'))
          else if py_eq_str (map_of d ''type'') ''welcome'' then
            Inr (dict_get d ''pir_state'' (JInt 0), self)
          else Inr (previous_state, self)
      | _ \<Rightarrow> Inl AttributeError)"

text \<open>
  The update of the rising-edge branch: the flag and the timestamp, the latter from one read
  of the clock. \<open>clock_reads\<close> therefore grows by one with every edge that is detected.
\<close>

definition detect_edge :: "env \<Rightarrow> PIRClient \<Rightarrow> PIRClient" where
  "detect_edge env self = self\<lparr>motion_detected := True,
     last_motion_time := time_time env (clock_reads self),
     clock_reads := clock_reads self + 1\<rparr>"

text \<open>The messages parsed from successive frames, handled in order.\<close>

fun feed :: "env \<Rightarrow> json list \<Rightarrow> json \<Rightarrow> PIRClient \<Rightarrow> py_exception + json \<times> PIRClient" where
  "feed env [] previous_state self = Inr (previous_state, self)"
| "feed env (message # rest) previous_state self =
     (case handle_message env message previous_state self of
        Inl e \<Rightarrow> Inl e
      | Inr (previous_state', self') \<Rightarrow> feed env rest previous_state' self')"

text \<open>
  A StateRecord with state \<open>s\<close>: a dict whose \<open>type\<close> is \<open>pir_state\<close> and whose \<open>state\<close> is
  the integer \<open>s\<close> (the other fields are not read by the client).
\<close>

definition is_state_record :: "json \<Rightarrow> int \<Rightarrow> bool" where
  "is_state_record message s =
     (case message of
        JObj d \<Rightarrow> map_of d ''type'' = Some (JStr ''pir_state'') \<and> map_of d ''state'' = Some (JInt s)
      | _ \<Rightarrow> False)"

text \<open>
  The specification's edge detection over a sequence of states, the state before the first
  being \<open>p\<close>: the rising-edge update is applied at each position where the previous state is 0
  and the current one is 1.
\<close>

fun apply_edges :: "env \<Rightarrow> int \<Rightarrow> int list \<Rightarrow> PIRClient \<Rightarrow> PIRClient" where
  "apply_edges env p [] self = self"
| "apply_edges env p (s # ss) self =
     apply_edges env s ss (if p = 0 \<and> s = 1 then detect_edge env self else self)"

text \<open>
  The \<^verbatim>\<open>while '\n' in buffer\<close> loop. The result is the buffer, \<open>previous_state\<close> and the
  object when the loop ends, and the exception that left it, if one did:
  \<^verbatim>\<open>JSONDecodeError\<close> is caught inside the loop, every other exception leaves it.
\<close>

function process_buffer :: "env \<Rightarrow> string \<Rightarrow> json \<Rightarrow> PIRClient
    \<Rightarrow> string \<times> json \<times> PIRClient \<times> py_exception option" where
  "process_buffer env buffer previous_state self =
     (if newline \<in> set buffer then
        (let line = takeWhile (\<lambda>c. c \<noteq> newline) buffer;
             buffer' = tl (dropWhile (\<lambda>c. c \<noteq> newline) buffer)
         in if strip line \<noteq> [] then
              (case json_loads env line of
                 Inl JSONDecodeError \<Rightarrow> process_buffer env buffer' previous_state self
               | Inl e \<Rightarrow> (buffer', previous_state, self, Some e)
               | Inr message \<Rightarrow>
                   (case handle_message env message previous_state self of
                      Inl e \<Rightarrow> (buffer', previous_state, self, Some e)
                    | Inr (previous_state', self') \<Rightarrow>
                        process_buffer env buffer' previous_state' self'))
            else process_buffer env buffer' previous_state self)
      else (buffer, previous_state, self, None))"
  by pat_completeness auto
termination
proof (relation "measure (\<lambda>(env, buffer, previous_state, self). length buffer)", goal_cases)
  case 1
  show ?case by simp
next
  case (2 env buffer previous_state self x xa)
  then have "dropWhile (\<lambda>c. c \<noteq> newline) buffer \<noteq> []"
    by (auto simp: dropWhile_eq_Nil_conv)
  then have "length xa < length (dropWhile (\<lambda>c. c \<noteq> newline) buffer)"
    using 2 by simp
  also have "\<dots> \<le> length buffer"
    by (rule length_dropWhile_le)
  finally show ?case by simp
next
  case (3 env buffer previous_state self x xa)
  then have "dropWhile (\<lambda>c. c \<noteq> newline) buffer \<noteq> []"
    by (auto simp: dropWhile_eq_Nil_conv)
  then have "length xa < length (dropWhile (\<lambda>c. c \<noteq> newline) buffer)"
    using 3 by simp
  also have "\<dots> \<le> length buffer"
    by (rule length_dropWhile_le)
  finally show ?case by simp
next
  case (4 env buffer previous_state self x xa)
  then have "dropWhile (\<lambda>c. c \<noteq> newline) buffer \<noteq> []"
    by (auto simp: dropWhile_eq_Nil_conv)
  then have "length xa < length (dropWhile (\<lambda>c. c \<noteq> newline) buffer)"
    using 4 by simp
  also have "\<dots> \<le> length buffer"
    by (rule length_dropWhile_le)
  finally show ?case by simp
qed


declare process_buffer.simps [simp del]



subsection \<open>get_motion\<close>

text \<open>The result is the returned boolean and the object afterwards.\<close>

definition get_motion :: "env \<Rightarrow> settings \<Rightarrow> PIRClient \<Rightarrow> bool \<times> PIRClient" where
  "get_motion env cfg self =
     (if motion_detected self then
        (let now = time_time env (clock_reads self);
             self1 = self\<lparr>clock_reads := clock_reads self + 1\<rparr>
         in if now - last_motion_time self > real_of_int (motion_debounce_ms cfg) / 1000
            then (True, self1\<lparr>motion_detected := False\<rparr>)
            else (False, self1))
      else (False, self))"

section \<open>Concrete inputs\<close>

definition state_line :: string where
  \<open>state_line = ''{"type": "pir_state", "state": 1}''\<close>

definition deep_frame :: string where
  "deep_frame = replicate 100000 (CHR ''['')"

definition example_loads :: "string \<Rightarrow> py_exception + json" where
  "example_loads s =
     (if s = state_line then Inr (JObj [(''type'', JStr ''pir_state''), (''state'', JInt 1)])
      else if s = deep_frame then Inl OtherException
      else Inl JSONDecodeError)"

definition example_env :: env where
  "example_env = \<lparr>time_time = real, now_isoformat = (\<lambda>k. ''2024-01-01T00:00:00''),
     json_dumps = (\<lambda>j. ''{}''), json_loads = example_loads\<rparr>"

definition state_record :: "int \<Rightarrow> json" where
  "state_record s = JObj [(''type'', JStr ''pir_state''), (''state'', JInt s)]"

definition no_send_fails :: "sock \<Rightarrow> bool" where
  "no_send_fails s = False"

definition every_send_fails :: "sock \<Rightarrow> bool" where
  "every_send_fails s = True"

definition every_host_accepts :: "address \<Rightarrow> connect_result" where
  "every_host_accepts a = Returned 0"

definition only_third_accepts :: "address \<Rightarrow> connect_result" where
  "only_third_accepts a = (if a = (''192.168.1.3'', 5555) then Returned 0 else Returned 111)"

definition no_host_accepts :: "address \<Rightarrow> connect_result" where
  "no_host_accepts a = Raised"

definition second_send_fails :: "sock \<Rightarrow> bool" where
  "second_send_fails s = (s = 2)"

definition three_clients :: server where
  "three_clients = server_init\<lparr>clients :=
     [(1, (''192.168.1.11'', 50001)), (2, (''192.168.1.12'', 50002)),
      (3, (''192.168.1.13'', 50003))]\<rparr>"

section \<open>The edge counter of the server\<close>

lemma send_loop_motion_count:
  "motion_count (snd (send_loop fails message cs ds st)) = motion_count st"
  by (induction cs arbitrary: ds st) (auto simp: Let_def)

lemma remove_loop_motion_count: "motion_count (remove_loop ds st) = motion_count st"
  by (induction ds arbitrary: st) auto

lemma broadcast_motion_count:
  "motion_count (broadcast_to_clients fails message st) = motion_count st"
  by (simp add: broadcast_to_clients_def case_prod_beta remove_loop_motion_count
      send_loop_motion_count)

lemma handle_client_motion_count:
  "motion_count (handle_client env fails s a st) = motion_count st"
  by (simp add: handle_client_def Let_def)

lemma state_data_motion_count:
  "motion_count (snd (state_data env r st)) = motion_count st"
  by (simp add: state_data_def Let_def split: prod.splits)

lemma detect_change_motion_count:
  "motion_count (snd (detect_change env r p st)) =
     motion_count st + (if r \<noteq> p \<and> r = 1 then 1 else 0)"
  by (simp add: detect_change_def)

lemma detect_change_previous: "fst (detect_change env r p st) = r"
  by (simp add: detect_change_def)

lemma monitor_tick_motion_count:
  "motion_count (snd (snd (monitor_tick env r fails p c st))) =
     motion_count st + (if r \<noteq> p \<and> r = 1 then 1 else 0)"
proof -
  obtain p' st1 where d: "detect_change env r p st = (p', st1)"
    by (cases "detect_change env r p st")
  obtain data st3 where s: "state_data env r (st1\<lparr>pir_state := r\<rparr>) = (data, st3)"
    by (cases "state_data env r (st1\<lparr>pir_state := r\<rparr>)")
  have m1: "motion_count st1 = motion_count st + (if r \<noteq> p \<and> r = 1 then 1 else 0)"
    using detect_change_motion_count [of env r p st] d by simp
  have m3: "motion_count st3 = motion_count st1"
    using state_data_motion_count [of env r "st1\<lparr>pir_state := r\<rparr>"] s by simp
  show ?thesis
    using m1 m3 by (simp add: monitor_tick_def d s broadcast_motion_count)
qed

lemma monitor_tick_previous: "fst (monitor_tick env r fails p c st) = r"
proof -
  obtain p' st1 where d: "detect_change env r p st = (p', st1)"
    by (cases "detect_change env r p st")
  obtain data st3 where s: "state_data env r (st1\<lparr>pir_state := r\<rparr>) = (data, st3)"
    by (cases "state_data env r (st1\<lparr>pir_state := r\<rparr>)")
  have "p' = r" using detect_change_previous [of env r p st] d by simp
  then show ?thesis by (simp add: monitor_tick_def d s)
qed


lemma server_step_previous:
  "fst (server_step env e (p, c, st)) = (case e of Tick r fails \<Rightarrow> r | Accept s a fails \<Rightarrow> p)"
  by (cases e) (simp_all add: monitor_tick_previous)

lemma server_step_motion_count:
  "motion_count (globals (server_step env e (p, c, st))) =
     motion_count st + (case e of Tick r fails \<Rightarrow> (if r \<noteq> p \<and> r = 1 then 1 else 0)
                        | Accept s a fails \<Rightarrow> 0)"
  by (cases e) (simp_all add: globals_def monitor_tick_motion_count handle_client_motion_count)

lemma server_run_append:
  "server_run env (es1 @ es2) cfg = server_run env es2 (server_run env es1 cfg)"
  by (induction es1 arbitrary: cfg) simp_all

lemma readings_append: "readings (es1 @ es2) = readings es1 @ readings es2"
  by (induction es1 rule: readings.induct) simp_all

lemma server_run_previous: "fst (server_run env es (p, c, st)) = last (p # readings es)"
proof (induction es arbitrary: p c st)
  case Nil
  show ?case by simp
next
  case (Cons e es)
  obtain p' c' st' where s: "server_step env e (p, c, st) = (p', c', st')"
    by (cases "server_step env e (p, c, st)")
  have "p' = (case e of Tick r fails \<Rightarrow> r | Accept s a fails \<Rightarrow> p)"
    using server_step_previous [of env e p c st] s by simp
  then show ?case
    using Cons.IH [of p' c' st'] s by (cases e) simp_all
qed

lemma server_run_motion_count:
  "\<forall>r \<in> set (readings es). r = 0 \<or> r = 1 \<Longrightarrow> p = 0 \<or> p = 1 \<Longrightarrow>
   motion_count (globals (server_run env es (p, c, st))) =
     motion_count st + rising_edges p (readings es)"
proof (induction es arbitrary: p c st)
  case Nil
  show ?case by (simp add: globals_def)
next
  case (Cons e es)
  obtain p' c' st' where s: "server_step env e (p, c, st) = (p', c', st')"
    by (cases "server_step env e (p, c, st)")
  have p': "p' = (case e of Tick r fails \<Rightarrow> r | Accept s a fails \<Rightarrow> p)"
    using server_step_previous [of env e p c st] s by simp
  have m: "motion_count st' = motion_count st +
      (case e of Tick r fails \<Rightarrow> (if r \<noteq> p \<and> r = 1 then 1 else 0) | Accept s a fails \<Rightarrow> 0)"
    using server_step_motion_count [of env e p c st] s by (simp add: globals_def)
  show ?case
  proof (cases e)
    case (Tick r fails)
    with Cons.prems have r: "r = 0 \<or> r = 1" and rest: "\<forall>r \<in> set (readings es). r = 0 \<or> r = 1"
      by simp_all
    have "motion_count (globals (server_run env es (p', c', st'))) =
        motion_count st' + rising_edges p' (readings es)"
      using Cons.IH [OF rest, of p' c' st'] r p' Tick by simp
    then show ?thesis
      using s p' m Tick r Cons.prems(2) by auto
  next
    case (Accept a b fails)
    with Cons.prems have rest: "\<forall>r \<in> set (readings es). r = 0 \<or> r = 1"
      by simp
    have "motion_count (globals (server_run env es (p', c', st'))) =
        motion_count st' + rising_edges p' (readings es)"
      using Cons.IH [OF rest, of p' c' st'] Cons.prems(2) p' Accept by simp
    then show ?thesis
      using s p' m Accept by simp
  qed
qed

lemma server_run_motion_count_mono:
  "motion_count (globals cfg) \<le> motion_count (globals (server_run env es cfg))"
proof (induction es arbitrary: cfg)
  case Nil
  show ?case by simp
next
  case (Cons e es)
  obtain p c st where cfg: "cfg = (p, c, st)"
    by (cases cfg)
  have "motion_count (globals cfg) \<le> motion_count (globals (server_step env e cfg))"
    using server_step_motion_count [of env e p c st] cfg
    by (cases e) (simp_all add: globals_def)
  also have "\<dots> \<le> motion_count (globals (server_run env es (server_step env e cfg)))"
    by (rule Cons.IH)
  finally show ?case by simp
qed

text \<open>
  Claim C2. In a run of the server that starts with \<open>previous_state = 0\<close> and whose sensor
  readings are all 0 or 1: a tick changes \<open>motion_count\<close> by exactly one when the reading
  before it was 0 and its own reading is 1, and leaves it unchanged on every other tick (0 to
  0, 1 to 1, 1 to 0); the count at the end is the initial count plus the number of 0-to-1
  transitions of the readings; and the count after any prefix of the run is at most the count
  at the end.
\<close>

theorem C2_motion_count_edges:
  assumes bits: "\<forall>r \<in> set (readings es). r = 0 \<or> r = 1"
  shows "(\<forall>es1 r fails es2. es = es1 @ Tick r fails # es2 \<longrightarrow>
            motion_count (globals (server_run env (es1 @ [Tick r fails]) (0, 0, st))) =
              motion_count (globals (server_run env es1 (0, 0, st))) +
                (if last (0 # readings es1) = 0 \<and> r = 1 then 1 else 0))
       \<and> motion_count (globals (server_run env es (0, 0, st))) =
            motion_count st + rising_edges 0 (readings es)
       \<and> (\<forall>es1 es2. es = es1 @ es2 \<longrightarrow>
            motion_count (globals (server_run env es1 (0, 0, st))) \<le>
              motion_count (globals (server_run env es (0, 0, st))))"
proof (intro conjI allI impI)
  fix es1 r fails es2
  assume es: "es = es1 @ Tick r fails # es2"
  obtain p c st1 where cfg: "server_run env es1 (0, 0, st) = (p, c, st1)"
    by (cases "server_run env es1 (0, 0, st)")
  have p: "p = last (0 # readings es1)"
    using server_run_previous [of env es1 0 0 st] cfg by simp
  have "\<forall>x \<in> set (readings es1). x = 0 \<or> x = 1"
    using bits es by (simp add: readings_append)
  then have pbit: "p = 0 \<or> p = 1"
    unfolding p by (cases "readings es1 = []") (simp_all add: last_in_set)
  have rbit: "r = 0 \<or> r = 1"
    using bits es by (simp add: readings_append)
  have "motion_count (globals (server_step env (Tick r fails) (p, c, st1))) =
      motion_count st1 + (if r \<noteq> p \<and> r = 1 then 1 else 0)"
    using server_step_motion_count [of env "Tick r fails" p c st1] by simp
  then show "motion_count (globals (server_run env (es1 @ [Tick r fails]) (0, 0, st))) =
      motion_count (globals (server_run env es1 (0, 0, st))) +
        (if last (0 # readings es1) = 0 \<and> r = 1 then 1 else 0)"
    using pbit rbit p by (auto simp add: server_run_append cfg globals_def)
next
  show "motion_count (globals (server_run env es (0, 0, st))) =
      motion_count st + rising_edges 0 (readings es)"
    using server_run_motion_count [OF bits, of 0 env 0 st] by simp
next
  fix es1 es2
  assume "es = es1 @ es2"
  then show "motion_count (globals (server_run env es1 (0, 0, st))) \<le>
      motion_count (globals (server_run env es (0, 0, st)))"
    using server_run_motion_count_mono [of "server_run env es1 (0, 0, st)" env es2]
    by (simp add: server_run_append)
qed


theorem C2_motion_count_edges_witness:
  "readings [Tick 0 no_send_fails, Tick 1 no_send_fails, Tick 1 no_send_fails,
      Tick 0 no_send_fails, Tick 1 no_send_fails] = [0, 1, 1, 0, 1]
   \<and> motion_count (globals (server_run example_env
        [Tick 0 no_send_fails, Tick 1 no_send_fails, Tick 1 no_send_fails,
         Tick 0 no_send_fails, Tick 1 no_send_fails] (0, 0, server_init))) = 2"
proof -
  have h: "\<forall>r \<in> set (readings [Tick 0 no_send_fails, Tick 1 no_send_fails,
      Tick 1 no_send_fails, Tick 0 no_send_fails, Tick 1 no_send_fails]). r = 0 \<or> r = 1"
    by simp
  show ?thesis
    using C2_motion_count_edges [OF h, of example_env server_init]
    by (simp add: server_init_def)
qed


section \<open>The motion query of the client\<close>

text \<open>
  Claim C3. \<open>get_motion\<close> returns true exactly when the motion flag is set and the time read
  from the clock minus \<open>last_motion_time\<close> is strictly greater than the debounce window
  (\<open>motion_debounce_ms / 1000\<close> seconds). The flag afterwards is set exactly when it was set
  and the call returned false, so a call that returns true clears it; the timestamp and the
  connection flags are untouched. After a call that returned true, the next call returns false
  whatever the clock and the window are: an edge is consumed once.
\<close>

theorem C3_get_motion:
  "fst (get_motion env cfg self) =
     (motion_detected self \<and>
      time_time env (clock_reads self) - last_motion_time self >
        real_of_int (motion_debounce_ms cfg) / 1000)
   \<and> motion_detected (snd (get_motion env cfg self)) =
       (motion_detected self \<and> \<not> fst (get_motion env cfg self))
   \<and> last_motion_time (snd (get_motion env cfg self)) = last_motion_time self
   \<and> connected (snd (get_motion env cfg self)) = connected self
   \<and> running (snd (get_motion env cfg self)) = running self
   \<and> (fst (get_motion env cfg self) \<longrightarrow>
       \<not> fst (get_motion env' cfg' (snd (get_motion env cfg self))))"
  by (simp add: get_motion_def Let_def)

theorem C3_get_motion_witness:
  "fst (get_motion example_env SETTINGS
      (PIRClient_init\<lparr>clock_reads := 1, motion_detected := True\<rparr>))
   \<and> \<not> fst (get_motion example_env SETTINGS
      (snd (get_motion example_env SETTINGS
         (PIRClient_init\<lparr>clock_reads := 1, motion_detected := True\<rparr>))))"
  using C3_get_motion [of example_env SETTINGS
      "PIRClient_init\<lparr>clock_reads := 1, motion_detected := True\<rparr>" example_env SETTINGS]
  by (simp add: example_env_def SETTINGS_def PIRClient_init_def)

section \<open>Edge detection in the client\<close>

lemma handle_state_record:
  "is_state_record message s \<Longrightarrow>
   handle_message env message (JInt p) self =
     Inr (JInt s, if p = 0 \<and> s = 1 then detect_edge env self else self)"
  by (cases message) (auto simp: is_state_record_def handle_message_def dict_get_def detect_edge_def)

lemma feed_state_records:
  "list_all2 is_state_record ms ss \<Longrightarrow>
   feed env ms (JInt p) self = Inr (JInt (last (p # ss)), apply_edges env p ss self)"
proof (induction ms ss arbitrary: p self rule: list_all2_induct)
  case Nil
  show ?case by simp
next
  case (Cons m ms s ss)
  show ?case
    using Cons.IH [of s "if p = 0 \<and> s = 1 then detect_edge env self else self"]
      handle_state_record [OF Cons.hyps(1), of env p self]
    by simp
qed

lemma apply_edges_clock_reads:
  "int (clock_reads (apply_edges env p ss self)) = int (clock_reads self) + rising_edges p ss"
  by (induction ss arbitrary: p self) (simp_all add: detect_edge_def)

lemma rising_edges_nonneg: "0 \<le> rising_edges p ss"
  by (induction ss arbitrary: p) simp_all

lemma apply_edges_motion_detected:
  "motion_detected (apply_edges env p ss self) = (motion_detected self \<or> 0 < rising_edges p ss)"
proof (induction ss arbitrary: p self)
  case Nil
  show ?case by simp
next
  case (Cons s ss)
  show ?case
    using rising_edges_nonneg [of s ss] by (auto simp: Cons.IH detect_edge_def)
qed

text \<open>
  Claim C4. For StateRecords handled in order: each record with state \<open>s\<close>, handled when
  \<open>previous_state\<close> is \<open>q\<close>, sets the motion flag and its timestamp exactly when \<open>q = 0\<close> and
  \<open>s = 1\<close>, and leaves \<open>previous_state = s\<close> in either case. Over a whole sequence the final
  \<open>previous_state\<close> is the last state, the number of detected edges (clock reads) is the
  number of 0-to-1 transitions, and the flag ends up set when it was set before or there was
  such a transition. The witness runs the states 0,0,1,1,0,1 from \<open>previous_state = 0\<close>: two
  edges.
\<close>

theorem C4_edges_on_state_records:
  assumes "list_all2 is_state_record ms ss"
  shows "(\<forall>m s q st. is_state_record m s \<longrightarrow>
            handle_message env m (JInt q) st =
              Inr (JInt s, if q = 0 \<and> s = 1 then detect_edge env st else st))
       \<and> feed env ms (JInt p) self = Inr (JInt (last (p # ss)), apply_edges env p ss self)
       \<and> int (clock_reads (apply_edges env p ss self)) =
            int (clock_reads self) + rising_edges p ss
       \<and> motion_detected (apply_edges env p ss self) =
            (motion_detected self \<or> 0 < rising_edges p ss)"
  using assms
  by (simp add: handle_state_record feed_state_records apply_edges_clock_reads
      apply_edges_motion_detected)

theorem C4_edges_on_state_records_witness:
  "list_all2 is_state_record
     (map state_record [0, 0, 1, 1, 0, 1]) [0, 0, 1, 1, 0, 1]
   \<and> feed example_env (map state_record [0, 0, 1, 1, 0, 1]) (JInt 0) PIRClient_init =
       Inr (JInt 1, apply_edges example_env 0 [0, 0, 1, 1, 0, 1] PIRClient_init)
   \<and> clock_reads (apply_edges example_env 0 [0, 0, 1, 1, 0, 1] PIRClient_init) = 2
   \<and> motion_detected (apply_edges example_env 0 [0, 0, 1, 1, 0, 1] PIRClient_init)"
proof -
  have h: "list_all2 is_state_record
      (map state_record [0, 0, 1, 1, 0, 1]) [0, 0, 1, 1, 0, 1]"
    by (simp add: is_state_record_def state_record_def)
  show ?thesis
    using h C4_edges_on_state_records [OF h, where env = example_env and p = 0
        and self = PIRClient_init]
    by (simp add: PIRClient_init_def)
qed

text \<open>
  Claim C5. A welcome message only replaces \<open>previous_state\<close> by its \<open>pir_state\<close> entry (0 when
  the entry is missing) and leaves the object as it is. A welcome with \<open>pir_state = 1\<close> followed
  by a StateRecord with state 1 leaves the object unchanged: no flag, no timestamp.
\<close>

theorem C5_welcome_seeds_only:
  assumes "map_of d ''type'' = Some (JStr ''welcome'')"
  shows "handle_message env (JObj d) previous_state self =
           Inr (dict_get d ''pir_state'' (JInt 0), self)
       \<and> (map_of d ''pir_state'' = Some (JInt 1) \<and> is_state_record message 1 \<longrightarrow>
            feed env [JObj d, message] previous_state self = Inr (JInt 1, self))"
  using assms handle_state_record [of message 1 env 1 self]
  by (auto simp: handle_message_def dict_get_def)

theorem C5_welcome_seeds_only_witness:
  "map_of [(''type'', JStr ''welcome''), (''pir_state'', JInt 1)] ''type'' =
     Some (JStr ''welcome'')
   \<and> feed example_env
       [JObj [(''type'', JStr ''welcome''), (''pir_state'', JInt 1)], state_record 1]
       (JInt 0) PIRClient_init = Inr (JInt 1, PIRClient_init)"
proof -
  have h: "map_of [(''type'', JStr ''welcome''), (''pir_state'', JInt 1)] ''type'' =
      Some (JStr ''welcome'')"
    by simp
  show ?thesis
    using h C5_welcome_seeds_only [OF h, where message = "state_record 1" and env = example_env
        and previous_state = "JInt 0" and self = PIRClient_init]
    by (simp add: is_state_record_def state_record_def del: feed.simps)
qed

text \<open>
  Claim C10. A dict of type \<open>pir_state\<close> without a \<open>state\<close> entry is handled as state 0:
  \<open>previous_state\<close> becomes 0 and the object is unchanged. A StateRecord with state 1 that
  follows it is detected as a rising edge, whatever \<open>previous_state\<close> was before the two.
\<close>

theorem C10_missing_state_is_zero:
  assumes "map_of d ''type'' = Some (JStr ''pir_state'')" and "map_of d ''state'' = None"
  shows "handle_message env (JObj d) previous_state self = Inr (JInt 0, self)
       \<and> (is_state_record message 1 \<longrightarrow>
            feed env [JObj d, message] previous_state self =
              Inr (JInt 1, detect_edge env self))"
  using assms handle_state_record [of message 1 env 0 self]
  by (auto simp: handle_message_def dict_get_def)


theorem C10_missing_state_is_zero_witness:
  "map_of [(''type'', JStr ''pir_state'')] ''type'' = Some (JStr ''pir_state'')
   \<and> map_of [(''type'', JStr ''pir_state'')] ''state'' = None
   \<and> feed example_env [JObj [(''type'', JStr ''pir_state'')], state_record 1]
       (JInt 1) PIRClient_init = Inr (JInt 1, detect_edge example_env PIRClient_init)"
proof -
  have h1: "map_of [(''type'', JStr ''pir_state'')] ''type'' = Some (JStr ''pir_state'')"
    by simp
  have h2: "map_of [(''type'', JStr ''pir_state'')] ''state'' = None"
    by simp
  show ?thesis
    using h1 h2 C10_missing_state_is_zero [OF h1 h2, where message = "state_record 1"
        and env = example_env and previous_state = "JInt 1" and self = PIRClient_init]
    by (simp add: is_state_record_def state_record_def del: feed.simps)
qed



section \<open>Frames that do not decode\<close>

lemma frame_split:
  assumes "newline \<notin> set line"
  shows "takeWhile (\<lambda>c. c \<noteq> newline) (line @ newline # rest) = line"
    and "tl (dropWhile (\<lambda>c. c \<noteq> newline) (line @ newline # rest)) = rest"
proof -
  have all: "\<forall>c \<in> set line. c \<noteq> newline"
    using assms by auto
  show "takeWhile (\<lambda>c. c \<noteq> newline) (line @ newline # rest) = line"
    using all by (simp add: takeWhile_append2)
  show "tl (dropWhile (\<lambda>c. c \<noteq> newline) (line @ newline # rest)) = rest"
    using all by (simp add: dropWhile_append2)
qed

lemma process_buffer_done:
  "newline \<notin> set buffer \<Longrightarrow>
   process_buffer env buffer previous_state self = (buffer, previous_state, self, None)"
  by (subst process_buffer.simps) simp

lemma process_buffer_blank:
  "newline \<notin> set line \<Longrightarrow> strip line = [] \<Longrightarrow>
   process_buffer env (line @ newline # rest) previous_state self =
     process_buffer env rest previous_state self"
  by (subst process_buffer.simps) (simp add: frame_split)


lemma process_buffer_frame:
  "newline \<notin> set line \<Longrightarrow> strip line \<noteq> [] \<Longrightarrow> json_loads env line = Inr message \<Longrightarrow>
   process_buffer env (line @ newline # rest) previous_state self =
     (case handle_message env message previous_state self of
        Inl e \<Rightarrow> (rest, previous_state, self, Some e)
      | Inr (previous_state', self') \<Rightarrow> process_buffer env rest previous_state' self')"
  by (subst process_buffer.simps) (simp add: frame_split)



text \<open>
  Frames that are complete, non-blank and decode are handled one after the other: the inner
  loop over such a buffer is \<open>feed\<close> over the decoded messages.
\<close>

lemma process_buffer_frames:
  assumes "\<forall>(line, message) \<in> set frames.
      newline \<notin> set line \<and> strip line \<noteq> [] \<and> json_loads env line = Inr message"
    and "feed env (map snd frames) previous_state self = Inr (previous_state', self')"
  shows "process_buffer env (concat (map (\<lambda>(line, message). line @ [newline]) frames))
      previous_state self = ([], previous_state', self', None)"
  using assms
proof (induction frames arbitrary: previous_state self)
  case Nil
  then show ?case by (simp add: process_buffer_done)
next
  case (Cons f frames)
  obtain line message where f: "f = (line, message)"
    by (cases f)
  have ok: "newline \<notin> set line" "strip line \<noteq> []" "json_loads env line = Inr message"
    using Cons.prems(1) f by simp_all
  obtain p1 s1 where h: "handle_message env message previous_state self = Inr (p1, s1)"
    using Cons.prems(2) f by (auto split: sum.splits)
  have rest: "feed env (map snd frames) p1 s1 = Inr (previous_state', self')"
    using Cons.prems(2) f h by simp
  have all: "\<forall>(line, message) \<in> set frames.
      newline \<notin> set line \<and> strip line \<noteq> [] \<and> json_loads env line = Inr message"
    using Cons.prems(1) by simp
  show ?case
    using process_buffer_frame [OF ok, of
        "concat (map (\<lambda>(line, message). line @ [newline]) frames)" previous_state self]
      Cons.IH [OF all rest] h f
    by simp
qed









section \<open>Broadcast\<close>

lemma send_loop_result:
  "send_loop fails message cs ds st =
     (ds @ filter (\<lambda>c. fails (fst c)) cs,
      st\<lparr>calls := calls st @ map (\<lambda>c. send_call fails (fst c) message) cs\<rparr>)"
  by (induction cs arbitrary: ds st) (auto simp: Let_def)

lemma remove_loop_result:
  "clients st = pre @ xs \<Longrightarrow> \<forall>c \<in> set pre. \<not> P c \<Longrightarrow>
   remove_loop (filter P xs) st =
     st\<lparr>clients := pre @ filter (\<lambda>c. \<not> P c) xs,
        calls := calls st @ map (\<lambda>c. Closed (fst c)) (filter P xs)\<rparr>"
proof (induction xs arbitrary: pre st)
  case Nil
  then show ?case by simp
next
  case (Cons x xs)
  show ?case
  proof (cases "P x")
    case True
    then have notin: "x \<notin> set pre"
      using Cons.prems(2) by auto
    let ?st = "st\<lparr>clients := remove1 x (clients st), calls := calls st @ [Closed (fst x)]\<rparr>"
    have c: "clients ?st = pre @ xs"
      using Cons.prems(1) notin by (simp add: remove1_append)
    have "remove_loop (filter P (x # xs)) st = remove_loop (filter P xs) ?st"
      using True Cons.prems(1) by simp
    also have "\<dots> = ?st\<lparr>clients := pre @ filter (\<lambda>c. \<not> P c) xs,
        calls := calls ?st @ map (\<lambda>c. Closed (fst c)) (filter P xs)\<rparr>"
      by (rule Cons.IH [OF c Cons.prems(2)])
    finally show ?thesis
      using True by simp
  next
    case False
    have c: "clients st = (pre @ [x]) @ xs"
      using Cons.prems(1) by simp
    have p: "\<forall>c \<in> set (pre @ [x]). \<not> P c"
      using Cons.prems(2) False by simp
    show ?thesis
      using Cons.IH [OF c p] False by simp
  qed
qed

lemma broadcast_result:
  "broadcast_to_clients fails message st =
     st\<lparr>clients := filter (\<lambda>c. \<not> fails (fst c)) (clients st),
        calls := calls st @ map (\<lambda>c. send_call fails (fst c) message) (clients st) @
          map (\<lambda>c. Closed (fst c)) (filter (\<lambda>c. fails (fst c)) (clients st))\<rparr>"
proof -
  let ?st = "st\<lparr>calls := calls st @ map (\<lambda>c. send_call fails (fst c) message) (clients st)\<rparr>"
  have "remove_loop (filter (\<lambda>c. fails (fst c)) (clients st)) ?st =
      ?st\<lparr>clients := [] @ filter (\<lambda>c. \<not> fails (fst c)) (clients st),
          calls := calls ?st @
            map (\<lambda>c. Closed (fst c)) (filter (\<lambda>c. fails (fst c)) (clients st))\<rparr>"
    by (rule remove_loop_result) simp_all
  then show ?thesis
    by (simp add: broadcast_to_clients_def send_loop_result)
qed

lemma detect_change_clients:
  "clients (snd (detect_change env r p st)) = clients st"
  "calls (snd (detect_change env r p st)) = calls st"
  by (simp_all add: detect_change_def)

lemma state_data_clients:
  "clients (snd (state_data env r st)) = clients st"
  "calls (snd (state_data env r st)) = calls st"
  by (simp_all add: state_data_def Let_def split: prod.splits)

lemma monitor_tick_result:
  "globals (monitor_tick env r fails p c st) =
     (let st3 = snd (state_data env r ((snd (detect_change env r p st))\<lparr>pir_state := r\<rparr>))
      in if clients st \<noteq> []
         then broadcast_to_clients fails (tick_message env r p st)
                (st3\<lparr>calls := calls st3 @ [Serialized (tick_data env r p st)]\<rparr>)
         else st3)"
  by (simp add: monitor_tick_def globals_def tick_message_def tick_data_def Let_def
      case_prod_beta state_data_clients detect_change_clients)

lemma serialized_append: "serialized (xs @ ys) = serialized xs @ serialized ys"
  by (induction xs rule: serialized.induct) simp_all

lemma serialized_sends: "serialized (map (\<lambda>c. send_call fails (fst c) message) cs) = []"
  by (induction cs) (simp_all add: send_call_def)

lemma serialized_closes: "serialized (map (\<lambda>c. Closed (fst c)) cs) = []"
  by (induction cs) simp_all

text \<open>
  Claim C6. On a tick with a non-empty registry the effects added to the history are one
  call of \<^verbatim>\<open>json.dumps\<close>, on the tick's data, and then one send to each registered
  connection, in registry order, each with the same message, which is that serialization
  followed by a newline (and then the closing of the connections whose send failed). On a
  tick with an empty registry nothing is added to the history: no serialization and no send,
  and the registry stays empty.
\<close>

theorem C6_fan_out_equality:
  "(clients st \<noteq> [] \<longrightarrow>
      calls (globals (monitor_tick env current_state fails previous_state send_counter st)) =
        calls st @
        Serialized (tick_data env current_state previous_state st) #
        map (\<lambda>c. send_call fails (fst c)
               (tick_message env current_state previous_state st)) (clients st) @
        map (\<lambda>c. Closed (fst c)) (filter (\<lambda>c. fails (fst c)) (clients st))
      \<and> serialized
          (calls (globals (monitor_tick env current_state fails previous_state send_counter st)))
        = serialized (calls st) @ [tick_data env current_state previous_state st])
   \<and> (clients st = [] \<longrightarrow>
      calls (globals (monitor_tick env current_state fails previous_state send_counter st)) =
        calls st
      \<and> clients (globals (monitor_tick env current_state fails previous_state send_counter st))
        = [])
   \<and> tick_message env current_state previous_state st =
       json_dumps env (tick_data env current_state previous_state st) @ [newline]"
  by (simp add: monitor_tick_result Let_def broadcast_result state_data_clients
      detect_change_clients serialized_append serialized_sends serialized_closes
      tick_message_def)

theorem C6_fan_out_equality_witness:
  "clients three_clients \<noteq> []
   \<and> calls (globals (monitor_tick example_env 1 no_send_fails 0 0 three_clients)) =
       [Serialized (tick_data example_env 1 0 three_clients),
        Sent 1 (''{}'' @ [newline]), Sent 2 (''{}'' @ [newline]), Sent 3 (''{}'' @ [newline])]
   \<and> clients server_init = []
   \<and> calls (globals (monitor_tick example_env 1 no_send_fails 0 0 server_init)) = []"
  using C6_fan_out_equality [of three_clients example_env 1 no_send_fails 0 0]
    C6_fan_out_equality [of server_init example_env 1 no_send_fails 0 0]
  by (simp add: three_clients_def server_init_def no_send_fails_def send_call_def
      example_env_def)

text \<open>
  Claim C7. After a broadcast the registry holds exactly the connections whose send did not
  fail, in their order; each of them was sent the message; each connection whose send failed
  is out of the registry and was closed; nothing else changes. The function has no exception
  result: every exception of a send is caught. The witness has three connections, the second
  failing: the first and third stay and receive the next broadcast.
\<close>

theorem C7_failed_clients_removed:
  "clients (broadcast_to_clients fails message st) =
     filter (\<lambda>c. \<not> fails (fst c)) (clients st)
   \<and> calls (broadcast_to_clients fails message st) =
       calls st @ map (\<lambda>c. send_call fails (fst c) message) (clients st) @
         map (\<lambda>c. Closed (fst c)) (filter (\<lambda>c. fails (fst c)) (clients st))
   \<and> (\<forall>c \<in> set (clients st). \<not> fails (fst c) \<longrightarrow>
         c \<in> set (clients (broadcast_to_clients fails message st)) \<and>
         Sent (fst c) message \<in> set (calls (broadcast_to_clients fails message st)))
   \<and> (\<forall>c \<in> set (clients st). fails (fst c) \<longrightarrow>
         c \<notin> set (clients (broadcast_to_clients fails message st)) \<and>
         Closed (fst c) \<in> set (calls (broadcast_to_clients fails message st)))
   \<and> pir_state (broadcast_to_clients fails message st) = pir_state st
   \<and> motion_count (broadcast_to_clients fails message st) = motion_count st"
  by (auto simp add: broadcast_result send_call_def)

theorem C7_failed_clients_removed_witness:
  "clients (broadcast_to_clients second_send_fails ''m'' three_clients) =
     [(1, (''192.168.1.11'', 50001)), (3, (''192.168.1.13'', 50003))]
   \<and> calls (broadcast_to_clients second_send_fails ''m'' three_clients) =
       [Sent 1 ''m'', SendFailed 2 ''m'', Sent 3 ''m'', Closed 2]
   \<and> calls (broadcast_to_clients no_send_fails ''n''
        (broadcast_to_clients second_send_fails ''m'' three_clients)) =
       [Sent 1 ''m'', SendFailed 2 ''m'', Sent 3 ''m'', Closed 2, Sent 1 ''n'', Sent 3 ''n'']"
  using C7_failed_clients_removed [of second_send_fails "''m''" three_clients]
    C7_failed_clients_removed [of no_send_fails "''n''"
      "broadcast_to_clients second_send_fails ''m'' three_clients"]
  by (simp add: three_clients_def server_init_def second_send_fails_def no_send_fails_def
      send_call_def)

section \<open>Accepting a connection\<close>

text \<open>
  Claim C1, as amended. \<open>handle_client\<close> first appends the connection to the registry, then
  serializes the welcome message, which carries the current \<open>pir_state\<close>, and makes one send
  of it to the connection. The registry after the call is the registry before with the
  connection at the end, whether the send failed or not. A broadcast after it keeps the
  connection exactly when its send to it does not fail, and closes it when it fails.
\<close>

theorem C1_registered_before_welcome:
  "clients (handle_client env fails client_socket client_address st) =
     clients st @ [(client_socket, client_address)]
   \<and> calls (handle_client env fails client_socket client_address st) =
       calls st @
       [Registered client_socket client_address,
        Serialized (welcome_msg env st),
        send_call fails client_socket (json_dumps env (welcome_msg env st) @ [newline])]
   \<and> map_of (case welcome_msg env st of JObj d \<Rightarrow> d | _ \<Rightarrow> []) ''pir_state'' =
       Some (JInt (pir_state st))
   \<and> pir_state (handle_client env fails client_socket client_address st) = pir_state st
   \<and> ((client_socket, client_address) \<in> set (clients (broadcast_to_clients fails' message
          (handle_client env fails client_socket client_address st)))
        \<longleftrightarrow> \<not> fails' client_socket)
   \<and> (fails' client_socket \<longrightarrow>
        Closed client_socket \<in> set (calls (broadcast_to_clients fails' message
          (handle_client env fails client_socket client_address st))))"
proof -
  have reg: "clients (handle_client env fails client_socket client_address st) =
      clients st @ [(client_socket, client_address)]"
    by (simp add: handle_client_def Let_def)
  have hist: "calls (handle_client env fails client_socket client_address st) =
      calls st @
      [Registered client_socket client_address,
       Serialized (welcome_msg env st),
       send_call fails client_socket (json_dumps env (welcome_msg env st) @ [newline])]"
    by (simp add: handle_client_def Let_def welcome_msg_def)
  have msg: "map_of (case welcome_msg env st of JObj d \<Rightarrow> d | _ \<Rightarrow> []) ''pir_state'' =
      Some (JInt (pir_state st))"
    by (simp add: welcome_msg_def)
  have pir: "pir_state (handle_client env fails client_socket client_address st) = pir_state st"
    by (simp add: handle_client_def Let_def)
  have later: "clients (broadcast_to_clients fails' message
        (handle_client env fails client_socket client_address st)) =
      filter (\<lambda>c. \<not> fails' (fst c)) (clients st @ [(client_socket, client_address)])"
    by (simp add: broadcast_result reg)
  have kept: "(client_socket, client_address) \<in> set (clients (broadcast_to_clients fails' message
        (handle_client env fails client_socket client_address st)))
      \<longleftrightarrow> \<not> fails' client_socket"
    unfolding later by simp
  have closed: "fails' client_socket \<longrightarrow>
      Closed client_socket \<in> set (calls (broadcast_to_clients fails' message
        (handle_client env fails client_socket client_address st)))"
    by (simp add: broadcast_result reg)
  show ?thesis
    using reg hist msg pir kept closed by blast
qed

theorem C1_registered_before_welcome_witness:
  "calls (handle_client example_env no_send_fails 7 (''192.168.1.50'', 40000) server_init) =
     [Registered 7 (''192.168.1.50'', 40000),
      Serialized (welcome_msg example_env server_init),
      Sent 7 (''{}'' @ [newline])]
   \<and> (7, (''192.168.1.50'', 40000)) \<in> set (clients (broadcast_to_clients no_send_fails ''m''
        (handle_client example_env no_send_fails 7 (''192.168.1.50'', 40000) server_init)))
   \<and> (7, (''192.168.1.50'', 40000)) \<notin> set (clients (broadcast_to_clients every_send_fails ''m''
        (handle_client example_env every_send_fails 7 (''192.168.1.50'', 40000) server_init)))
   \<and> Closed 7 \<in> set (calls (broadcast_to_clients every_send_fails ''m''
        (handle_client example_env every_send_fails 7 (''192.168.1.50'', 40000) server_init)))"
  using C1_registered_before_welcome [of example_env no_send_fails 7
      "(''192.168.1.50'', 40000)" server_init no_send_fails "''m''"]
    C1_registered_before_welcome [of example_env every_send_fails 7
      "(''192.168.1.50'', 40000)" server_init every_send_fails "''m''"]
  by (simp add: no_send_fails_def every_send_fails_def send_call_def example_env_def
      server_init_def)

text \<open>
  The claim as stated fails: a connection whose welcome send fails was registered before the
  send and is in the registry after \<open>handle_client\<close>.
\<close>

theorem C1_counterexample:
  "calls (handle_client example_env every_send_fails 7 (''192.168.1.50'', 40000) server_init) =
     [Registered 7 (''192.168.1.50'', 40000),
      Serialized (welcome_msg example_env server_init),
      SendFailed 7 (''{}'' @ [newline])]
   \<and> clients (handle_client example_env every_send_fails 7 (''192.168.1.50'', 40000)
        server_init) = [(7, (''192.168.1.50'', 40000))]"
  by (simp add: handle_client_def Let_def welcome_msg_def send_call_def every_send_fails_def
      example_env_def server_init_def)

section \<open>Discovery\<close>

lemma scan_result:
  "scan connect_ex cfg network_prefix hosts probed =
     (find (accepts connect_ex cfg) (map (\<lambda>i. network_prefix @ str i) hosts),
      probed @ map (\<lambda>h. (h, port cfg))
        (takeWhile (\<lambda>h. \<not> accepts connect_ex cfg h) (map (\<lambda>i. network_prefix @ str i) hosts) @
         (case find (accepts connect_ex cfg) (map (\<lambda>i. network_prefix @ str i) hosts) of
            None \<Rightarrow> [] | Some h \<Rightarrow> [h])))"
proof (induction hosts arbitrary: probed)
  case Nil
  show ?case by simp
next
  case (Cons i hosts)
  show ?case
  proof (cases "connect_ex (network_prefix @ str i, port cfg)")
    case (Returned result)
    then show ?thesis
      using Cons.IH [of "probed @ [(network_prefix @ str i, port cfg)]"]
      by (simp add: accepts_def Let_def del: str.simps)
  next
    case Raised
    then show ?thesis
      using Cons.IH [of "probed @ [(network_prefix @ str i, port cfg)]"]
      by (simp add: accepts_def Let_def del: str.simps)
  qed
qed

lemma candidates_example:
  "\<exists>others. candidates ''192.168.1.23'' =
     ''192.168.1.1'' # ''192.168.1.2'' # ''192.168.1.3'' # others"
proof -
  have u1: "[1..<255] = 1 # [Suc 1..<255]"
    by (rule upt_conv_Cons) simp
  have u2: "[Suc 1..<255] = Suc 1 # [Suc (Suc 1)..<255]"
    by (rule upt_conv_Cons) simp
  have u3: "[Suc (Suc 1)..<255] = Suc (Suc 1) # [Suc (Suc (Suc 1))..<255]"
    by (rule upt_conv_Cons) simp
  have strs: "str 1 = ''1''" "str (Suc 1) = ''2''" "str (Suc (Suc 1)) = ''3''"
    by code_simp+
  define others where
    "others = map (\<lambda>i. join ''.'' (butlast (split ''192.168.1.23'' CHR ''.'')) @ ''.'' @ str i)
       [Suc (Suc (Suc 1))..<255]"
  have "candidates ''192.168.1.23'' =
      (join ''.'' (butlast (split ''192.168.1.23'' CHR ''.'')) @ ''.'' @ ''1'') #
      (join ''.'' (butlast (split ''192.168.1.23'' CHR ''.'')) @ ''.'' @ ''2'') #
      (join ''.'' (butlast (split ''192.168.1.23'' CHR ''.'')) @ ''.'' @ ''3'') # others"
    unfolding candidates_def u1 u2 u3 list.map strs others_def by (rule refl)
  then have "candidates ''192.168.1.23'' =
      ''192.168.1.1'' # ''192.168.1.2'' # ''192.168.1.3'' # others"
    by simp
  then show ?thesis ..
qed

text \<open>
  Claim C9, as amended. When the local address cannot be determined, \<open>find_raspberry_pi\<close>
  returns \<open>None\<close> without a probe. When it is determined, the hosts 1 to 254 of its /24 range
  are probed in order up to and including the first that accepts; the result is that host,
  and it is \<open>None\<close> exactly when no host of the range accepts.
\<close>

theorem C9_scan_first_accepting:
  "find_raspberry_pi None connect_ex cfg = (None, [])
   \<and> fst (find_raspberry_pi (Some ip) connect_ex cfg) =
       find (accepts connect_ex cfg) (candidates ip)
   \<and> snd (find_raspberry_pi (Some ip) connect_ex cfg) =
       map (\<lambda>h. (h, port cfg))
         (takeWhile (\<lambda>h. \<not> accepts connect_ex cfg h) (candidates ip) @
          (case find (accepts connect_ex cfg) (candidates ip) of None \<Rightarrow> [] | Some h \<Rightarrow> [h]))
   \<and> (fst (find_raspberry_pi (Some ip) connect_ex cfg) = None \<longleftrightarrow>
       (\<forall>h \<in> set (candidates ip). \<not> accepts connect_ex cfg h))"
  by (auto simp add: find_raspberry_pi_def scan_result candidates_def find_None_iff
      simp del: str.simps)

theorem C9_scan_first_accepting_witness:
  "fst (find_raspberry_pi (Some ''192.168.1.23'') no_host_accepts SETTINGS) = None
   \<and> find_raspberry_pi (Some ''192.168.1.23'') only_third_accepts SETTINGS =
       (Some ''192.168.1.3'',
        [(''192.168.1.1'', 5555), (''192.168.1.2'', 5555), (''192.168.1.3'', 5555)])"
proof -
  have h: "\<forall>h \<in> set (candidates ''192.168.1.23''). \<not> accepts no_host_accepts SETTINGS h"
    by (simp add: accepts_def no_host_accepts_def)
  have none: "fst (find_raspberry_pi (Some ''192.168.1.23'') no_host_accepts SETTINGS) = None"
    using h C9_scan_first_accepting [of no_host_accepts SETTINGS "''192.168.1.23''"]
    by blast
  obtain others where c: "candidates ''192.168.1.23'' =
      ''192.168.1.1'' # ''192.168.1.2'' # ''192.168.1.3'' # others"
    using candidates_example by blast
  have third: "find_raspberry_pi (Some ''192.168.1.23'') only_third_accepts SETTINGS =
      (Some ''192.168.1.3'',
       [(''192.168.1.1'', 5555), (''192.168.1.2'', 5555), (''192.168.1.3'', 5555)])"
    using C9_scan_first_accepting [of only_third_accepts SETTINGS "''192.168.1.23''"]
    by (simp add: prod_eq_iff c accepts_def only_third_accepts_def SETTINGS_def)
  show ?thesis
    using none third by simp
qed

text \<open>
  The claim as stated fails: without a local address the result is \<open>None\<close> and nothing is
  probed, although a host would accept.
\<close>

theorem C9_counterexample:
  "fst (find_raspberry_pi None every_host_accepts SETTINGS) = None
   \<and> snd (find_raspberry_pi None every_host_accepts SETTINGS) = []
   \<and> every_host_accepts (''192.168.1.1'', port SETTINGS) = Returned 0"
  by (simp add: find_raspberry_pi_def every_host_accepts_def)



end
